theory Spec2Isabelle
  imports Complex_Main
begin

section \<open>Closures: counter, memoization, module pattern, rate limiter\<close>

subsection \<open>createCounter (concepts/closure/index.ts, lines 20-36)\<close>

text \<open>
  The closure variable \<open>count\<close> is the only state of a counter. It starts at 0 and is
  changed by \<open>count++\<close> and \<open>count--\<close> only, so it is always an integer. Every
  method returns its result together with the state it leaves behind.
\<close>

record counter =
  count :: int

definition createCounter :: counter where
  "createCounter = \<lparr>count = 0\<rparr>"

definition increment :: "counter \<Rightarrow> int \<times> counter" where
  "increment c = (let c' = c\<lparr>count := count c + 1\<rparr> in (count c', c'))"

definition decrement :: "counter \<Rightarrow> int \<times> counter" where
  "decrement c = (let c' = c\<lparr>count := count c - 1\<rparr> in (count c', c'))"

definition getCount :: "counter \<Rightarrow> int \<times> counter" where
  "getCount c = (count c, c)"

text \<open>
  The object returned by \<open>createCounter\<close> has exactly these three methods; a client
  program is a sequence of calls to them.
\<close>

datatype counter_op = Increment | Decrement | GetCount

fun counter_call :: "counter_op \<Rightarrow> counter \<Rightarrow> int \<times> counter" where
  "counter_call Increment c = increment c"
| "counter_call Decrement c = decrement c"
| "counter_call GetCount c = getCount c"

fun counter_run :: "counter_op list \<Rightarrow> counter \<Rightarrow> counter" where
  "counter_run [] c = c"
| "counter_run (x # xs) c = counter_run xs (snd (counter_call x c))"

subsection \<open>createMemoizedFunction (concepts/closure/index.ts, lines 155-180)\<close>












subsection \<open>Calculator (concepts/closure/index.ts, lines 185-209)\<close>

text \<open>
  The module's state is the closure variable \<open>lastResult\<close>; the private \<open>log\<close> prints
  one line per operation, kept in \<open>printed\<close> as the operation name and the result.
\<close>

record calculator =
  lastResult :: real
  printed :: "(string \<times> real) list"

definition Calculator :: calculator where
  "Calculator = \<lparr>lastResult = 0, printed = []\<rparr>"

definition calc_log :: "string \<Rightarrow> real \<Rightarrow> calculator \<Rightarrow> calculator" where
  "calc_log operation result s = s\<lparr>printed := printed s @ [(operation, result)]\<rparr>"

definition Calculator_add :: "real \<Rightarrow> real \<Rightarrow> calculator \<Rightarrow> real \<times> calculator" where
  "Calculator_add a b s =
     (let s1 = s\<lparr>lastResult := a + b\<rparr>;
          s2 = calc_log ''Addition'' (lastResult s1) s1
      in (lastResult s2, s2))"

definition Calculator_subtract :: "real \<Rightarrow> real \<Rightarrow> calculator \<Rightarrow> real \<times> calculator" where
  "Calculator_subtract a b s =
     (let s1 = s\<lparr>lastResult := a - b\<rparr>;
          s2 = calc_log ''Subtraction'' (lastResult s1) s1
      in (lastResult s2, s2))"

definition Calculator_getLastResult :: "calculator \<Rightarrow> real \<times> calculator" where
  "Calculator_getLastResult s = (lastResult s, s)"

subsection \<open>createRateLimiter (concepts/closure/index.ts, lines 220-241)\<close>

text \<open>
  The limiter's state is the array \<open>calls\<close> of recorded timestamps, shared by every
  function it wraps. \<open>Date.now()\<close> is an input of each invocation: a whole number of
  milliseconds. \<open>maxCalls\<close> and \<open>windowMs\<close> are numbers, whole or not, of either sign.
  \<open>remove_old\<close> is the \<open>while\<close> loop that shifts timestamps off the front of the array
  while the first one is older than \<open>now - windowMs\<close>. The result \<open>None\<close> is the \<open>null\<close>
  returned after printing "Rate limit exceeded!"; \<open>Some r\<close> is the result of invoking
  \<open>fn\<close>.
\<close>

fun remove_old :: "real \<Rightarrow> int list \<Rightarrow> int list" where
  "remove_old bound [] = []"
| "remove_old bound (t # ts) = (if real_of_int t < bound then remove_old bound ts else t # ts)"

definition limited_call ::
  "real \<Rightarrow> real \<Rightarrow> ('args \<Rightarrow> 'r) \<Rightarrow> 'args \<Rightarrow> int \<Rightarrow> int list \<Rightarrow> 'r option \<times> int list" where
  "limited_call maxCalls windowMs fn args now calls =
     (let calls' = remove_old (real_of_int now - windowMs) calls
      in if real (length calls') < maxCalls then (Some (fn args), calls' @ [now])
         else (None, calls'))"






section \<open>Currying (concepts/curry/README.md)\<close>

text \<open>
  \<open>add\<close> and \<open>addCurried\<close> both compute \<open>a + b + c\<close>, that is \<open>(a + b) + c\<close>, with the
  number type's own addition; nothing else about the numbers is used, so the
  type is left open.
\<close>

definition add :: "'a::plus \<Rightarrow> 'a \<Rightarrow> 'a \<Rightarrow> 'a" where
  "add a b c = a + b + c"

definition addCurried :: "'a::plus \<Rightarrow> 'a \<Rightarrow> 'a \<Rightarrow> 'a" where
  "addCurried a = (\<lambda>b. (\<lambda>c. a + b + c))"

text \<open>
  A multi-argument TypeScript function takes its arguments as a tuple. An impure
  function is covered by instantiating the result type with a state transformer.
\<close>

definition curry2 :: "('a \<times> 'b \<Rightarrow> 'r) \<Rightarrow> 'a \<Rightarrow> 'b \<Rightarrow> 'r" where
  "curry2 fn = (\<lambda>a. (\<lambda>b. fn (a, b)))"

definition curry3 :: "('a \<times> 'b \<times> 'c \<Rightarrow> 'r) \<Rightarrow> 'a \<Rightarrow> 'b \<Rightarrow> 'c \<Rightarrow> 'r" where
  "curry3 fn = (\<lambda>a. (\<lambda>b. (\<lambda>c. fn (a, b, c))))"

section \<open>The Result type and divide (concepts/this/index.ts, lines 423-443)\<close>

text \<open>
  Modelled from the spec: the third-party \<open>Result\<close> type is "a tagged two-variant value
  (success-with-value or failure-with-error)"; its library source is not part of the
  repository. \<open>unwrapOr\<close> returns the success value, or the given default on a failure.
\<close>

datatype ('t, 'e) result = Ok 't | Err 'e

fun unwrapOr :: "('t, 'e) result \<Rightarrow> 't \<Rightarrow> 't" where
  "unwrapOr (Ok v) d = v"
| "unwrapOr (Err e) d = d"

fun isOk :: "('t, 'e) result \<Rightarrow> bool" where
  "isOk (Ok v) = True"
| "isOk (Err e) = False"

text \<open>
  Numbers are modelled as reals. The function has two branches and no
  \<open>throw\<close>; the test \<open>b === 0\<close> is the equality with zero.
\<close>

definition divide_num :: "real \<Rightarrow> real \<Rightarrow> (real, string) result" where
  "divide_num a b = (if b = 0 then Err ''Division by zero'' else Ok (a / b))"

subsection \<open>ApiError and fetchUser (concepts/this/index.ts, lines 474-503)\<close>

text \<open>
  What a promise can be rejected with, as far as the error mapper of \<open>fetchUser\<close> looks
  at it: whether it is an instance of \<open>TypeError\<close> and its \<open>message\<close>; whether it is
  truthy; its \<open>typeof\<close>; its properties, for the test \<open>"status" in error\<close> and the value
  of \<open>error.status\<close>; and what \<open>String(error)\<close> gives.
\<close>

record thrown =
  instanceof_TypeError :: bool
  message :: string
  truthy :: bool
  typeof :: string
  props :: "(string \<times> int) list"
  shown :: string

text \<open>The union type \<open>ApiError\<close>; \<open>error_type\<close> is its \<open>type\<close> tag.\<close>

datatype ApiError = Network string | Http int | Parse string

fun error_type :: "ApiError \<Rightarrow> string" where
  "error_type (Network msg) = ''network''"
| "error_type (Http code) = ''http''"
| "error_type (Parse msg) = ''parse''"

text \<open>
  The second argument of \<open>ResultAsync.fromPromise\<close> in \<open>fetchUser\<close>, test by test: first
  \<open>error instanceof TypeError\<close>, then \<open>error && typeof error === "object" && "status" in
  error\<close>, then the rest.
\<close>

definition mapError :: "thrown \<Rightarrow> ApiError" where
  "mapError error =
     (if instanceof_TypeError error then Network (message error)
      else case (if truthy error \<and> typeof error = ''object''
                 then map_of (props error) ''status'' else None) of
             Some code \<Rightarrow> Http code
           | None \<Rightarrow> Parse (shown error))"

text \<open>The object \<open>{ status: res.status }\<close> that \<open>fetchUser\<close> throws for a response not ok.\<close>

definition status_object :: "int \<Rightarrow> thrown" where
  "status_object code =
     \<lparr>instanceof_TypeError = False, message = [], truthy = True, typeof = ''object'',
      props = [(''status'', code)], shown = ''[object Object]''\<rparr>"

text \<open>
  The network is the environment of \<open>fetchUser\<close>: \<open>fetch\<close> rejects, or resolves to a
  response that is not ok, or to one whose \<open>json()\<close> rejects or resolves to a value.
  Modelled from the spec: \<open>ResultAsync.fromPromise\<close> belongs to the third-party library;
  it gives the success variant for a resolved promise and the failure variant, holding
  the mapped error, for a rejected one.
\<close>

datatype 'u fetch_outcome =
  Fetch_rejects thrown | Response_not_ok int | Json_rejects thrown | Json_resolves 'u

fun fetchUser :: "'u fetch_outcome \<Rightarrow> ('u, ApiError) result" where
  "fetchUser (Fetch_rejects error) = Err (mapError error)"
| "fetchUser (Response_not_ok code) = Err (mapError (status_object code))"
| "fetchUser (Json_rejects error) = Err (mapError error)"
| "fetchUser (Json_resolves u) = Ok u"

subsection \<open>validateEmail and validatePassword (concepts/this/index.ts, lines 547-558)\<close>

text \<open>The regular expression engine is the runtime's: \<open>emailRegex.test\<close> is a parameter.\<close>

definition validateEmail :: "(string \<Rightarrow> bool) \<Rightarrow> string \<Rightarrow> (string, string) result" where
  "validateEmail emailRegex_test email =
     (if emailRegex_test email then Ok email else Err ''Invalid email format'')"

definition validatePassword :: "string \<Rightarrow> (string, string) result" where
  "validatePassword password =
     (if length password \<ge> 8 then Ok password
      else Err ''Password must be at least 8 characters'')"

section \<open>Streams (concepts/stream/index.ts)\<close>

subsection \<open>writeWithBackpressure (lines 186-212)\<close>

text \<open>
  The writable stream belongs to the runtime. It is a parameter here: a state \<open>'w\<close> and
  a function \<open>wr\<close> for \<open>writable.write(chunk)\<close>, which returns the new state of the stream
  and \<open>false\<close> when its internal buffer is full. The writer's own state is the closure
  variable \<open>i\<close> (\<open>index\<close>); \<open>events\<close> lists, in order, the calls it made on the writable.
\<close>

datatype write_event = Write string | Write_last string | Once_drain

record 'w writer =
  index :: nat
  writable :: 'w
  events :: "write_event list"

text \<open>
  The \<open>while\<close> loop of the inner function \<open>write\<close>, with the local variable \<open>ok\<close>. The
  result of writing the last chunk is not looked at.
\<close>

function write_loop ::
  "('w \<Rightarrow> string \<Rightarrow> bool \<times> 'w) \<Rightarrow> string list \<Rightarrow> bool \<Rightarrow> 'w writer \<Rightarrow> 'w writer" where
  "write_loop wr data ok s =
     (if index s < length data \<and> ok then
        (let chunk = data ! index s; i = index s + 1
         in if i = length data
            then write_loop wr data ok
                   (s\<lparr>index := i, writable := snd (wr (writable s) chunk),
                      events := events s @ [Write_last chunk]\<rparr>)
            else write_loop wr data (fst (wr (writable s) chunk))
                   (s\<lparr>index := i, writable := snd (wr (writable s) chunk),
                      events := events s @ [Write chunk]\<rparr>))
      else s)"
  by pat_completeness auto
termination
  by (relation "measure (\<lambda>(wr, data, ok, s). length data - index s)") auto

declare write_loop.simps [simp del]

text \<open>
  One run of the inner function \<open>write\<close>: the loop, then the \<open>drain\<close> listener when
  chunks are left.
\<close>

definition write_fn ::
  "('w \<Rightarrow> string \<Rightarrow> bool \<times> 'w) \<Rightarrow> string list \<Rightarrow> 'w writer \<Rightarrow> 'w writer" where
  "write_fn wr data s =
     (let s' = write_loop wr data True s
      in if index s' < length data then s'\<lparr>events := events s' @ [Once_drain]\<rparr> else s')"

definition writeWithBackpressure ::
  "('w \<Rightarrow> string \<Rightarrow> bool \<times> 'w) \<Rightarrow> string list \<Rightarrow> 'w \<Rightarrow> 'w writer" where
  "writeWithBackpressure wr data w = write_fn wr data \<lparr>index = 0, writable = w, events = []\<rparr>"

text \<open>
  A \<open>drain\<close> event: the stream changes its state by \<open>dr\<close> and, when the listener is
  registered (chunks are left), \<open>write\<close> runs again.
\<close>

definition on_drain ::
  "('w \<Rightarrow> string \<Rightarrow> bool \<times> 'w) \<Rightarrow> ('w \<Rightarrow> 'w) \<Rightarrow> string list \<Rightarrow> 'w writer \<Rightarrow> 'w writer" where
  "on_drain wr dr data s =
     (if index s < length data then write_fn wr data (s\<lparr>writable := dr (writable s)\<rparr>)
      else s\<lparr>writable := dr (writable s)\<rparr>)"

fun after_drains ::
  "('w \<Rightarrow> string \<Rightarrow> bool \<times> 'w) \<Rightarrow> ('w \<Rightarrow> 'w) \<Rightarrow> string list \<Rightarrow> nat \<Rightarrow> 'w \<Rightarrow> 'w writer" where
  "after_drains wr dr data 0 w = writeWithBackpressure wr data w"
| "after_drains wr dr data (Suc n) w = on_drain wr dr data (after_drains wr dr data n w)"

text \<open>The chunks submitted to the writable so far, in order.\<close>

fun chunks_of :: "write_event \<Rightarrow> string list" where
  "chunks_of (Write c) = [c]"
| "chunks_of (Write_last c) = [c]"
| "chunks_of Once_drain = []"

definition submitted :: "'w writer \<Rightarrow> string list" where
  "submitted s = concat (map chunks_of (events s))"

text \<open>The chunks submitted so far are the first \<open>index\<close> chunks of the data.\<close>

definition writer_ok :: "string list \<Rightarrow> 'w writer \<Rightarrow> bool" where
  "writer_ok data s = (index s \<le> length data \<and> submitted s = take (index s) data)"

subsection \<open>CSVParser (concepts/stream/index.ts, lines 300-328)\<close>

text \<open>
  \<open>split_on\<close> is \<open>String.prototype.split\<close> with a one-character separator: it never
  returns an empty array, and a trailing separator gives a last empty piece.
\<close>

fun split_on :: "char \<Rightarrow> string \<Rightarrow> string list" where
  "split_on sep [] = [[]]"
| "split_on sep (c # cs) =
     (if c = sep then [] # split_on sep cs
      else (case split_on sep cs of [] \<Rightarrow> [[c]] | x # xs \<Rightarrow> (c # x) # xs))"

text \<open>
  \<open>trim\<close> removes white space and line terminators at both ends. A string is a list
  of characters below 256; of those, tab, line feed, vertical tab, form feed, carriage
  return, space and no-break space are white space.
\<close>

definition is_space :: "char \<Rightarrow> bool" where
  "is_space c = (c \<in> set (map char_of [9, 10, 11, 12, 13, 32, 160 :: nat]))"

definition trim :: "string \<Rightarrow> string" where
  "trim s = rev (dropWhile is_space (rev (dropWhile is_space s)))"

text \<open>The parser's only field; \<open>None\<close> is \<open>null\<close>.\<close>

record csv_parser =
  header :: "string list option"

definition new_CSVParser :: csv_parser where
  "new_CSVParser = \<lparr>header = None\<rparr>"

text \<open>\<open>values[i]\<close> is \<open>undefined\<close> past the end of the array.\<close>

definition nth_opt :: "'a list \<Rightarrow> nat \<Rightarrow> 'a option" where
  "nth_opt xs i = (if i < length xs then Some (xs ! i) else None)"

text \<open>
  The object built for a row is a finite map from keys to strings. \<open>JSON.stringify\<close>
  leaves out a key whose value is \<open>undefined\<close>, so such a key is absent from what is
  pushed. \<open>acc[key] = v\<close> sets the key, except that on a plain object the key
  \<open>__proto__\<close> is the prototype accessor, on which assigning a string or \<open>undefined\<close>
  does nothing. The JSON text itself (quoting, key order) is the runtime's and is not
  modelled: the parser pushes one object for each call of \<open>this.push\<close>.
\<close>

definition assign :: "(string \<rightharpoonup> string) \<Rightarrow> string \<Rightarrow> string option \<Rightarrow> (string \<rightharpoonup> string)" where
  "assign acc key v = (if key = ''__proto__'' then acc else acc(key := v))"

text \<open>The \<open>reduce\<close> over the header, with the index of each field.\<close>

definition row_object :: "string list \<Rightarrow> string \<Rightarrow> (string \<rightharpoonup> string)" where
  "row_object hdr line =
     (let values = split_on CHR '','' line
      in foldl (\<lambda>acc (i, key). assign acc (trim key) (map_option trim (nth_opt values i)))
           Map.empty (enumerate 0 hdr))"

text \<open>
  The body of \<open>lines.forEach\<close>. An array is truthy, so \<open>!this.header\<close> holds exactly while
  the header is \<open>null\<close>; a string is truthy when it is not empty.
\<close>

fun process_line ::
  "csv_parser \<times> (string \<rightharpoonup> string) list \<Rightarrow> string \<Rightarrow> csv_parser \<times> (string \<rightharpoonup> string) list" where
  "process_line (p, pushed) line =
     (case header p of
        None \<Rightarrow> (p\<lparr>header := Some (split_on CHR '','' line)\<rparr>, pushed)
      | Some hdr \<Rightarrow>
          if trim line \<noteq> [] then (p, pushed @ [row_object hdr line]) else (p, pushed))"

text \<open>\<open>_transform\<close> on one chunk: the new state of the parser and the objects pushed.\<close>

definition transform :: "csv_parser \<Rightarrow> string \<Rightarrow> csv_parser \<times> (string \<rightharpoonup> string) list" where
  "transform p chunk = foldl process_line (p, []) (split_on CHR 0x0A chunk)"

text \<open>The chunks written one after the other, each in its own call of \<open>_transform\<close>.\<close>

fun write_chunks :: "csv_parser \<Rightarrow> string list \<Rightarrow> csv_parser \<times> (string \<rightharpoonup> string) list" where
  "write_chunks p [] = (p, [])"
| "write_chunks p (chunk # chunks) =
     (let (p', pushed) = transform p chunk;
          (p'', pushed') = write_chunks p' chunks
      in (p'', pushed @ pushed'))"

text \<open>
  The rows as the specification describes them, for comparison with the parser: every
  chunk is cut into lines on its own, the first line of all is the header, and each
  later line that is not blank gives one object.
\<close>

definition csv_rows_spec :: "string list \<Rightarrow> (string \<rightharpoonup> string) list" where
  "csv_rows_spec chunks =
     (case concat (map (split_on CHR 0x0A) chunks) of
        [] \<Rightarrow> []
      | first # later \<Rightarrow>
          map (row_object (split_on CHR '','' first)) (filter (\<lambda>line. trim line \<noteq> []) later))"

section \<open>Properties\<close>

subsection \<open>Counter\<close>

lemma count_increment: "count (snd (increment c)) = count c + 1"
  by (simp add: increment_def Let_def)

lemma count_decrement: "count (snd (decrement c)) = count c - 1"
  by (simp add: decrement_def Let_def)

lemma count_getCount: "count (snd (getCount c)) = count c"
  by (simp add: getCount_def)

lemma count_counter_run:
  "count (counter_run ops c) =
     count c + int (count_list ops Increment) - int (count_list ops Decrement)"
proof (induction ops arbitrary: c)
  case Nil
  show ?case by simp
next
  case (Cons x xs)
  show ?case
    by (cases x) (simp_all add: Cons.IH count_increment count_decrement count_getCount)
qed

text \<open>
  Claim C8. After any sequence of method calls on a counter made by \<open>createCounter\<close>,
  \<open>getCount\<close> returns the number of \<open>increment\<close> calls so far minus the number of
  \<open>decrement\<close> calls so far, \<open>increment\<close> returns that difference plus one and
  \<open>decrement\<close> returns it minus one. The count is a component of the state that
  only the three methods of \<open>counter_op\<close> read or change.
\<close>

theorem createCounter_counts_calls:
  "fst (getCount (counter_run ops createCounter)) =
     int (count_list ops Increment) - int (count_list ops Decrement)
   \<and> fst (increment (counter_run ops createCounter)) =
     int (count_list ops Increment) - int (count_list ops Decrement) + 1
   \<and> fst (decrement (counter_run ops createCounter)) =
     int (count_list ops Increment) - int (count_list ops Decrement) - 1"
  by (simp add: getCount_def increment_def decrement_def Let_def count_counter_run
      createCounter_def)

subsection \<open>Currying\<close>

text \<open>
  Claim C3. Currying preserves the results of the original function:
  \<open>curry2(f)(a)(b) = f(a, b)\<close> and \<open>curry3(f)(a)(b)(c) = f(a, b, c)\<close> for every
  function and all arguments, and \<open>addCurried(a)(b)(c) = add(a, b, c) = a + b + c\<close>.
\<close>

theorem currying_preserves_results:
  "curry2 f a b = f (a, b)
   \<and> curry3 g a b c = g (a, b, c)
   \<and> addCurried x y z = add x y z
   \<and> add x y z = x + y + z"
  by (simp add: curry2_def curry3_def addCurried_def add_def)

subsection \<open>divide\<close>

text \<open>
  Claim C4. \<open>divide(a, b)\<close> returns \<open>err("Division by zero")\<close> if and only if \<open>b = 0\<close>
  and returns \<open>ok(a / b)\<close> otherwise; it is total (every call returns a Result, none
  throws), and \<open>divide(10, 0).unwrapOr(0)\<close> is 0.
\<close>

theorem divide_err_iff_zero:
  "(divide_num a b = Err ''Division by zero'') = (b = 0)
   \<and> (b \<noteq> 0 \<longrightarrow> divide_num a b = Ok (a / b))
   \<and> (\<exists>r. divide_num a b = r \<and> (isOk r \<or> r = Err ''Division by zero''))
   \<and> unwrapOr (divide_num 10 0) 0 = 0"
  by (simp add: divide_num_def)

theorem divide_err_iff_zero_witness:
  "(2::real) \<noteq> 0
   \<and> divide_num 10 2 = Ok (10 / 2)
   \<and> divide_num 10 2 \<noteq> Err ''Division by zero''
   \<and> unwrapOr (divide_num 10 0) 0 = 0"
  using divide_err_iff_zero [of 10 2] by simp

subsection \<open>Memoization\<close>




















subsection \<open>Rate limiter\<close>




lemma remove_old_Nil: "remove_old b [] = []"
  by simp












subsection \<open>State kept across invocations\<close>

text \<open>
  Claim C1 says that every public operation of the counter, of the Calculator module and
  of the rate limiter leaves the component's state unchanged, so that the same call made
  twice in succession returns the same result. It fails for \<open>increment\<close>: the first
  two calls on a new counter return 1 and 2, and the state after the first call is not
  the initial one.
\<close>

theorem increment_twice_counterexample:
  "fst (increment createCounter) = 1
   \<and> fst (increment (snd (increment createCounter))) = 2
   \<and> fst (increment (snd (increment createCounter))) \<noteq> fst (increment createCounter)
   \<and> snd (increment createCounter) \<noteq> createCounter"
  by (simp add: increment_def createCounter_def Let_def)

text \<open>
  Claim C1, amended. The components keep state across invocations. The read operations
  \<open>getCount\<close> and \<open>getLastResult\<close> leave the state unchanged and return the same result
  when repeated. \<open>Calculator.add\<close> and \<open>Calculator.subtract\<close> return the same result when
  repeated with the same arguments, and overwrite \<open>lastResult\<close> with it. \<open>increment\<close> and
  \<open>decrement\<close> change the count: a second \<open>increment()\<close> returns one more than the
  first, a second \<open>decrement()\<close> one less. The rate-limited wrapper records the time of
  every call it admits: with \<open>maxCalls = 1\<close> and \<open>windowMs \<ge> 0\<close>, the first call on a new
  limiter invokes \<open>fn\<close> and a second call at the same instant returns null.
\<close>

theorem components_state_across_calls:
  "snd (getCount c) = c
   \<and> fst (getCount (snd (getCount c))) = fst (getCount c)
   \<and> snd (Calculator_getLastResult s) = s
   \<and> fst (Calculator_getLastResult (snd (Calculator_getLastResult s))) =
       fst (Calculator_getLastResult s)
   \<and> fst (Calculator_add a b s) = a + b
   \<and> fst (Calculator_add a b (snd (Calculator_add a b s))) = fst (Calculator_add a b s)
   \<and> lastResult (snd (Calculator_add a b s)) = a + b
   \<and> fst (Calculator_subtract a b s) = a - b
   \<and> fst (Calculator_subtract a b (snd (Calculator_subtract a b s))) =
       fst (Calculator_subtract a b s)
   \<and> lastResult (snd (Calculator_subtract a b s)) = a - b
   \<and> fst (increment (snd (increment c))) = fst (increment c) + 1
   \<and> fst (decrement (snd (decrement c))) = fst (decrement c) - 1
   \<and> (0 \<le> windowMs \<longrightarrow>
        limited_call 1 windowMs fn args now [] = (Some (fn args), [now])
        \<and> limited_call 1 windowMs fn args now
              (snd (limited_call 1 windowMs fn args now [])) = (None, [now]))"
  by (simp add: getCount_def Calculator_getLastResult_def Calculator_add_def
      Calculator_subtract_def calc_log_def increment_def decrement_def limited_call_def
      Let_def)

theorem components_state_across_calls_witness:
  "(0::real) \<le> 1000
   \<and> limited_call 1 1000 (\<lambda>s. s) ''Call 1'' 0 [] = (Some ''Call 1'', [0])
   \<and> limited_call 1 1000 (\<lambda>s. s) ''Call 1'' 0 [0] = (None, [0])
   \<and> fst (Calculator_add 5 3 Calculator) = 8
   \<and> fst (Calculator_add 5 3 (snd (Calculator_add 5 3 Calculator))) = 8
   \<and> fst (Calculator_getLastResult (snd (Calculator_subtract 10 4
         (snd (Calculator_add 5 3 Calculator))))) = 6"
  using components_state_across_calls [of createCounter Calculator 5 3 1000 "\<lambda>s. s" "''Call 1''" 0]
    components_state_across_calls [of createCounter "snd (Calculator_add 5 3 Calculator)" 10 4
      1000 "\<lambda>s. s" "''Call 1''" 0]
  by (simp add: Calculator_getLastResult_def)

subsection \<open>Backpressure\<close>

lemma write_loop_stop: "\<not> (index s < length data \<and> ok) \<Longrightarrow> write_loop wr data ok s = s"
  by (subst write_loop.simps) auto

lemma write_loop_last:
  "index s < length data \<and> ok \<Longrightarrow> index s + 1 = length data \<Longrightarrow>
   write_loop wr data ok s =
     write_loop wr data ok
       (s\<lparr>index := index s + 1, writable := snd (wr (writable s) (data ! index s)),
          events := events s @ [Write_last (data ! index s)]\<rparr>)"
  by (subst write_loop.simps) (simp add: Let_def)

lemma write_loop_more:
  "index s < length data \<and> ok \<Longrightarrow> index s + 1 \<noteq> length data \<Longrightarrow>
   write_loop wr data ok s =
     write_loop wr data (fst (wr (writable s) (data ! index s)))
       (s\<lparr>index := index s + 1, writable := snd (wr (writable s) (data ! index s)),
          events := events s @ [Write (data ! index s)]\<rparr>)"
  by (subst write_loop.simps) (simp add: Let_def)

lemma write_loop_ok:
  "writer_ok data s \<Longrightarrow> writer_ok data (write_loop wr data ok s)"
proof (induction wr data ok s rule: write_loop.induct)
  case (1 wr data ok s)
  show ?case
  proof (cases "index s < length data \<and> ok")
    case False
    then show ?thesis using "1.prems" by (simp add: write_loop_stop)
  next
    case True
    let ?chunk = "data ! index s"
    have t: "take (Suc (index s)) data = take (index s) data @ [?chunk]"
      using True by (simp add: take_Suc_conv_app_nth)
    show ?thesis
    proof (cases "index s + 1 = length data")
      case last: True
      let ?s' = "s\<lparr>index := index s + 1, writable := snd (wr (writable s) ?chunk),
                      events := events s @ [Write_last ?chunk]\<rparr>"
      have "writer_ok data ?s'" using "1.prems" True t by (simp add: writer_ok_def submitted_def)
      then have "writer_ok data (write_loop wr data ok ?s')"
        using "1.IH"(1) [OF True refl refl last] by simp
      then show ?thesis using write_loop_last [OF True last, of wr] by simp
    next
      case more: False
      let ?s' = "s\<lparr>index := index s + 1, writable := snd (wr (writable s) ?chunk),
                      events := events s @ [Write ?chunk]\<rparr>"
      have "writer_ok data ?s'" using "1.prems" True t by (simp add: writer_ok_def submitted_def)
      then have "writer_ok data (write_loop wr data (fst (wr (writable s) ?chunk)) ?s')"
        using "1.IH"(2) [OF True refl refl more] by simp
      then show ?thesis using write_loop_more [OF True more, of wr] by simp
    qed
  qed
qed

lemma write_loop_mono: "index s \<le> index (write_loop wr data ok s)"
proof (induction wr data ok s rule: write_loop.induct)
  case (1 wr data ok s)
  show ?case
  proof (cases "index s < length data \<and> ok")
    case False
    then show ?thesis by (simp add: write_loop_stop)
  next
    case True
    show ?thesis
    proof (cases "index s + 1 = length data")
      case last: True
      show ?thesis using "1.IH"(1) [OF True refl refl last] write_loop_last [OF True last, of wr]
        by simp
    next
      case more: False
      show ?thesis using "1.IH"(2) [OF True refl refl more] write_loop_more [OF True more, of wr]
        by simp
    qed
  qed
qed

lemma write_loop_progress:
  assumes "index s < length data"
  shows "index s < index (write_loop wr data True s)"
proof (cases "index s + 1 = length data")
  case True
  let ?s' = "s\<lparr>index := index s + 1, writable := snd (wr (writable s) (data ! index s)),
                  events := events s @ [Write_last (data ! index s)]\<rparr>"
  have "write_loop wr data True s = write_loop wr data True ?s'"
    using assms True by (simp add: write_loop_last)
  moreover have "index ?s' \<le> index (write_loop wr data True ?s')" by (rule write_loop_mono)
  ultimately show ?thesis by simp
next
  case False
  let ?s' = "s\<lparr>index := index s + 1, writable := snd (wr (writable s) (data ! index s)),
                  events := events s @ [Write (data ! index s)]\<rparr>"
  have "write_loop wr data True s = write_loop wr data (fst (wr (writable s) (data ! index s))) ?s'"
    using assms False by (simp add: write_loop_more)
  moreover have "index ?s' \<le> index (write_loop wr data (fst (wr (writable s) (data ! index s))) ?s')"
    by (rule write_loop_mono)
  ultimately show ?thesis by simp
qed

lemma write_loop_never_full:
  "\<forall>w c. fst (wr w c) \<Longrightarrow> ok \<Longrightarrow> index s \<le> length data \<Longrightarrow>
   index (write_loop wr data ok s) = length data"
proof (induction wr data ok s rule: write_loop.induct)
  case (1 wr data ok s)
  show ?case
  proof (cases "index s < length data")
    case False
    then show ?thesis using "1.prems" by (simp add: write_loop_stop)
  next
    case lt: True
    then have True: "index s < length data \<and> ok" using "1.prems" by simp
    show ?thesis
    proof (cases "index s + 1 = length data")
      case last: True
      show ?thesis
        using "1.IH"(1) [OF True refl refl last] write_loop_last [OF True last, of wr] "1.prems" lt
        by simp
    next
      case more: False
      show ?thesis
        using "1.IH"(2) [OF True refl refl more] write_loop_more [OF True more, of wr] "1.prems" lt
        by simp
    qed
  qed
qed

lemma submitted_drain [simp]: "submitted (s\<lparr>events := events s @ [Once_drain]\<rparr>) = submitted s"
  by (simp add: submitted_def)

lemma write_fn_ok: "writer_ok data s \<Longrightarrow> writer_ok data (write_fn wr data s)"
  using write_loop_ok [of data s wr True]
  by (auto simp: write_fn_def Let_def writer_ok_def)

lemma write_fn_progress: "index s < length data \<Longrightarrow> index s < index (write_fn wr data s)"
  using write_loop_progress [of s data wr]
  by (auto simp: write_fn_def Let_def)

lemma after_drains_ok: "writer_ok data (after_drains wr dr data n w)"
proof (induction n)
  case 0
  have "writer_ok data \<lparr>index = 0, writable = w, events = []\<rparr>"
    by (simp add: writer_ok_def submitted_def)
  then show ?case by (simp add: writeWithBackpressure_def write_fn_ok)
next
  case (Suc n)
  let ?s = "after_drains wr dr data n w"
  have "writer_ok data (?s\<lparr>writable := dr (writable ?s)\<rparr>)"
    using Suc by (simp add: writer_ok_def submitted_def)
  then show ?case by (simp add: on_drain_def write_fn_ok)
qed

lemma after_drains_progress:
  "min (Suc n) (length data) \<le> index (after_drains wr dr data n w)"
proof (induction n)
  case 0
  show ?case
  proof (cases "data = []")
    case True
    then show ?thesis by simp
  next
    case False
    then have "0 < index (write_fn wr data \<lparr>index = 0, writable = w, events = []\<rparr>)"
      using write_fn_progress [of "\<lparr>index = 0, writable = w, events = []\<rparr>" data wr] by simp
    then show ?thesis by (simp add: writeWithBackpressure_def)
  qed
next
  case (Suc n)
  let ?s = "after_drains wr dr data n w"
  show ?case
  proof (cases "index ?s < length data")
    case True
    then have "index ?s < index (write_fn wr data (?s\<lparr>writable := dr (writable ?s)\<rparr>))"
      using write_fn_progress [of "?s\<lparr>writable := dr (writable ?s)\<rparr>" data wr] by simp
    then show ?thesis using Suc True by (simp add: on_drain_def)
  next
    case False
    then show ?thesis by (simp add: on_drain_def)
  qed
qed

lemma write_fn_done: "length data \<le> index s \<Longrightarrow> write_fn wr data s = s"
  by (simp add: write_fn_def write_loop_stop)

lemma write_fn_last:
  assumes "index s + 1 = length data"
  shows "write_fn wr data s =
     s\<lparr>index := length data, writable := snd (wr (writable s) (data ! index s)),
       events := events s @ [Write_last (data ! index s)]\<rparr>"
proof -
  let ?s1 = "s\<lparr>index := index s + 1, writable := snd (wr (writable s) (data ! index s)),
                events := events s @ [Write_last (data ! index s)]\<rparr>"
  have "write_loop wr data True s = write_loop wr data True ?s1"
    using assms by (intro write_loop_last) simp_all
  also have "\<dots> = ?s1" using assms by (simp add: write_loop_stop)
  finally show ?thesis using assms by (simp add: write_fn_def)
qed

lemma write_fn_stop:
  assumes "index s + 1 < length data" "\<not> fst (wr (writable s) (data ! index s))"
  shows "write_fn wr data s =
     s\<lparr>index := index s + 1, writable := snd (wr (writable s) (data ! index s)),
       events := events s @ [Write (data ! index s), Once_drain]\<rparr>"
proof -
  let ?s1 = "s\<lparr>index := index s + 1, writable := snd (wr (writable s) (data ! index s)),
                events := events s @ [Write (data ! index s)]\<rparr>"
  have "write_loop wr data True s =
      write_loop wr data (fst (wr (writable s) (data ! index s))) ?s1"
    using assms(1) by (intro write_loop_more) simp_all
  also have "\<dots> = ?s1" using assms(2) by (simp add: write_loop_stop)
  finally show ?thesis using assms(1) by (simp add: write_fn_def)
qed

lemma write_fn_continue:
  assumes "index s + 1 < length data" "fst (wr (writable s) (data ! index s))"
  shows "write_fn wr data s =
     write_fn wr data
       (s\<lparr>index := index s + 1, writable := snd (wr (writable s) (data ! index s)),
          events := events s @ [Write (data ! index s)]\<rparr>)"
proof -
  let ?s1 = "s\<lparr>index := index s + 1, writable := snd (wr (writable s) (data ! index s)),
                events := events s @ [Write (data ! index s)]\<rparr>"
  have "write_loop wr data True s =
      write_loop wr data (fst (wr (writable s) (data ! index s))) ?s1"
    using assms(1) by (intro write_loop_more) simp_all
  then have "write_loop wr data True s = write_loop wr data True ?s1"
    using assms(2) by simp
  then show ?thesis by (simp add: write_fn_def)
qed

text \<open>
  Claim C5 says that no authored function's write scheduling depends on the boolean
  returned by \<open>writable.write\<close>, so that the chunks submitted are the same whether or not
  the writable reports a full buffer. \<open>writeWithBackpressure\<close> does depend on it: called
  with the five chunks of the source's example, it submits all five when no write
  reports a full buffer, and only the first, followed by a wait for \<open>drain\<close>, when the
  first write does.
\<close>

theorem write_depends_on_full_buffer_counterexample:
  "submitted (writeWithBackpressure (\<lambda>v c. (False, v)) [''A'', ''B'', ''C'', ''D'', ''E''] ())
     = [''A'']
   \<and> submitted (writeWithBackpressure (\<lambda>v c. (True, v)) [''A'', ''B'', ''C'', ''D'', ''E''] ())
     = [''A'', ''B'', ''C'', ''D'', ''E'']
   \<and> events (writeWithBackpressure (\<lambda>v c. (False, v)) [''A'', ''B'', ''C'', ''D'', ''E''] ())
     = [Write ''A'', Once_drain]
   \<and> events (writeWithBackpressure (\<lambda>v c. (True, v)) [''A'', ''B'', ''C'', ''D'', ''E''] ())
     = [Write ''A'', Write ''B'', Write ''C'', Write ''D'', Write_last ''E'']"
  by code_simp

text \<open>
  Claim C5, amended. \<open>writeWithBackpressure\<close> implements backpressure on top of the
  stream's \<open>write\<close> and \<open>drain\<close>: it submits the chunks in order, stops after a write
  (other than the last) that reports a full buffer and resumes on the next \<open>drain\<close>
  event. Whatever the writable reports, the chunks submitted so far are a prefix of the
  data and every run of \<open>write\<close> submits at least one more chunk, so that after
  \<open>length data - 1\<close> drain events all the data has been submitted once, in order. When
  no write reports a full buffer the call itself submits all the data; when the first
  write of two or more chunks does, the call submits that chunk only and waits. In
  general a run of \<open>write\<close> from any position does nothing when no chunk is left; writes
  the last chunk, with its callback, and ends whatever that write reports; and for any
  other chunk writes it and then, if the write reported a full buffer, registers the
  \<open>drain\<close> listener and ends, or else goes on with the next chunk.
\<close>

theorem backpressure_writer_submits_in_order:
  "submitted (after_drains wr dr data n w) = take (index (after_drains wr dr data n w)) data
   \<and> min (Suc n) (length data) \<le> index (after_drains wr dr data n w)
   \<and> (length data \<le> Suc n \<longrightarrow> submitted (after_drains wr dr data n w) = data)
   \<and> ((\<forall>v c. fst (wr v c)) \<longrightarrow> submitted (writeWithBackpressure wr data w) = data)
   \<and> (2 \<le> length data \<and> \<not> fst (wr w (data ! 0)) \<longrightarrow>
        events (writeWithBackpressure wr data w) = [Write (data ! 0), Once_drain])
   \<and> (length data \<le> index s \<longrightarrow> write_fn wr data s = s)
   \<and> (index s + 1 = length data \<longrightarrow>
        write_fn wr data s =
          s\<lparr>index := length data, writable := snd (wr (writable s) (data ! index s)),
            events := events s @ [Write_last (data ! index s)]\<rparr>)
   \<and> (index s + 1 < length data \<and> \<not> fst (wr (writable s) (data ! index s)) \<longrightarrow>
        write_fn wr data s =
          s\<lparr>index := index s + 1, writable := snd (wr (writable s) (data ! index s)),
            events := events s @ [Write (data ! index s), Once_drain]\<rparr>)
   \<and> (index s + 1 < length data \<and> fst (wr (writable s) (data ! index s)) \<longrightarrow>
        write_fn wr data s =
          write_fn wr data
            (s\<lparr>index := index s + 1, writable := snd (wr (writable s) (data ! index s)),
               events := events s @ [Write (data ! index s)]\<rparr>))
   \<and> on_drain wr dr data s =
       (if index s < length data then write_fn wr data (s\<lparr>writable := dr (writable s)\<rparr>)
        else s\<lparr>writable := dr (writable s)\<rparr>)"
proof (intro conjI impI)
  let ?s = "after_drains wr dr data n w"
  have ok: "writer_ok data ?s" by (rule after_drains_ok)
  then show prefix: "submitted ?s = take (index ?s) data" by (simp add: writer_ok_def)
  show progress: "min (Suc n) (length data) \<le> index ?s" by (rule after_drains_progress)
  assume "length data \<le> Suc n"
  with progress ok have "index ?s = length data" by (simp add: writer_ok_def)
  with prefix show "submitted ?s = data" by simp
next
  let ?s0 = "\<lparr>index = 0, writable = w, events = []\<rparr>"
  assume never_full: "\<forall>v c. fst (wr v c)"
  have ok0: "writer_ok data ?s0" by (simp add: writer_ok_def submitted_def)
  then have ok: "writer_ok data (write_loop wr data True ?s0)" by (rule write_loop_ok)
  have "index (write_loop wr data True ?s0) = length data"
    using never_full by (rule write_loop_never_full) simp_all
  with ok show "submitted (writeWithBackpressure wr data w) = data"
    by (simp add: writeWithBackpressure_def write_fn_def writer_ok_def)
next
  let ?s0 = "\<lparr>index = 0, writable = w, events = []\<rparr>"
  assume a: "2 \<le> length data \<and> \<not> fst (wr w (data ! 0))"
  then have "write_fn wr data ?s0 =
      ?s0\<lparr>index := index ?s0 + 1, writable := snd (wr (writable ?s0) (data ! index ?s0)),
         events := events ?s0 @ [Write (data ! index ?s0), Once_drain]\<rparr>"
    by (intro write_fn_stop) simp_all
  then show "events (writeWithBackpressure wr data w) = [Write (data ! 0), Once_drain]"
    by (simp add: writeWithBackpressure_def)
next
  assume "length data \<le> index s"
  then show "write_fn wr data s = s" by (rule write_fn_done)
next
  assume "index s + 1 = length data"
  then show "write_fn wr data s =
          s\<lparr>index := length data, writable := snd (wr (writable s) (data ! index s)),
            events := events s @ [Write_last (data ! index s)]\<rparr>"
    by (rule write_fn_last)
next
  assume "index s + 1 < length data \<and> \<not> fst (wr (writable s) (data ! index s))"
  then show "write_fn wr data s =
          s\<lparr>index := index s + 1, writable := snd (wr (writable s) (data ! index s)),
            events := events s @ [Write (data ! index s), Once_drain]\<rparr>"
    by (intro write_fn_stop) simp_all
next
  assume "index s + 1 < length data \<and> fst (wr (writable s) (data ! index s))"
  then show "write_fn wr data s =
          write_fn wr data
            (s\<lparr>index := index s + 1, writable := snd (wr (writable s) (data ! index s)),
               events := events s @ [Write (data ! index s)]\<rparr>)"
    by (intro write_fn_continue) simp_all
next
  show "on_drain wr dr data s =
       (if index s < length data then write_fn wr data (s\<lparr>writable := dr (writable s)\<rparr>)
        else s\<lparr>writable := dr (writable s)\<rparr>)"
    by (simp add: on_drain_def)
qed

text \<open>
  The witness uses a writable that always reports a full buffer, one that never does,
  and one that counts its writes and reports a full buffer on the second write only.
\<close>

theorem backpressure_writer_submits_in_order_witness:
  "length [''A'', ''B'', ''C'', ''D'', ''E''] \<le> Suc 4
   \<and> submitted (after_drains (\<lambda>v c. (False, v)) id [''A'', ''B'', ''C'', ''D'', ''E''] 4 ())
       = [''A'', ''B'', ''C'', ''D'', ''E'']
   \<and> (\<forall>v c. fst ((\<lambda>v c. (True, v)) (v::unit) (c::string)))
   \<and> submitted (writeWithBackpressure (\<lambda>v c. (True, v)) [''A'', ''B'', ''C'', ''D'', ''E''] ())
       = [''A'', ''B'', ''C'', ''D'', ''E'']
   \<and> 2 \<le> length [''A'', ''B'', ''C'', ''D'', ''E'']
   \<and> \<not> fst ((\<lambda>v c. (False, v)) () ([''A'', ''B'', ''C'', ''D'', ''E''] ! 0))
   \<and> events (writeWithBackpressure (\<lambda>v c. (False, v)) [''A'', ''B'', ''C'', ''D'', ''E''] ())
       = [Write ''A'', Once_drain]
   \<and> events (writeWithBackpressure (\<lambda>v c. (v \<noteq> 1, v + 1)) [''A'', ''B'', ''C'', ''D'', ''E'']
         (0::nat))
       = [Write ''A'', Write ''B'', Once_drain]
   \<and> events (write_fn (\<lambda>v c. (True, v)) [''A'', ''B'']
         \<lparr>index = 1, writable = (), events = [Write ''A'']\<rparr>)
       = [Write ''A'', Write_last ''B'']
   \<and> write_fn (\<lambda>v c. (True, v)) [''A'', ''B'']
         \<lparr>index = 2, writable = (), events = [Write ''A'', Write_last ''B'']\<rparr>
       = \<lparr>index = 2, writable = (), events = [Write ''A'', Write_last ''B'']\<rparr>"
proof -
  let ?data = "[''A'', ''B'', ''C'', ''D'', ''E'']"
  let ?wr = "\<lambda>(v::nat) (c::string). (v \<noteq> 1, v + 1)"
  let ?s0 = "\<lparr>index = 0, writable = 0::nat, events = []\<rparr>"
  let ?s1 = "\<lparr>index = 1, writable = 1::nat, events = [Write ''A'']\<rparr>"
  have "write_fn ?wr ?data ?s0 = write_fn ?wr ?data ?s1"
    using backpressure_writer_submits_in_order
      [where wr = ?wr and dr = id and data = ?data and n = 0 and w = 0 and s = ?s0]
    by simp
  moreover have "events (write_fn ?wr ?data ?s1) = [Write ''A'', Write ''B'', Once_drain]"
    using backpressure_writer_submits_in_order
      [where wr = ?wr and dr = id and data = ?data and n = 0 and w = 0 and s = ?s1]
    by simp
  ultimately have second: "events (writeWithBackpressure ?wr ?data 0)
      = [Write ''A'', Write ''B'', Once_drain]"
    by (simp add: writeWithBackpressure_def)
  have last: "events (write_fn (\<lambda>v c. (True, v)) [''A'', ''B'']
         \<lparr>index = 1, writable = (), events = [Write ''A'']\<rparr>)
       = [Write ''A'', Write_last ''B'']"
    using backpressure_writer_submits_in_order
      [where wr = "\<lambda>v c. (True, v)" and dr = id and data = "[''A'', ''B'']" and n = 0
        and w = "()" and s = "\<lparr>index = 1, writable = (), events = [Write ''A'']\<rparr>"]
    by simp
  have none_left: "write_fn (\<lambda>v c. (True, v)) [''A'', ''B'']
         \<lparr>index = 2, writable = (), events = [Write ''A'', Write_last ''B'']\<rparr>
       = \<lparr>index = 2, writable = (), events = [Write ''A'', Write_last ''B'']\<rparr>"
    using backpressure_writer_submits_in_order
      [where wr = "\<lambda>v c. (True, v)" and dr = id and data = "[''A'', ''B'']" and n = 0
        and w = "()"
        and s = "\<lparr>index = 2, writable = (), events = [Write ''A'', Write_last ''B'']\<rparr>"]
    by simp
  show ?thesis
    using backpressure_writer_submits_in_order
        [where wr = "\<lambda>v c. (False, v)" and dr = id and data = ?data and n = 4 and w = "()"
          and s = "\<lparr>index = 0, writable = (), events = []\<rparr>"]
      backpressure_writer_submits_in_order
        [where wr = "\<lambda>v c. (True, v)" and dr = id and data = ?data and n = 4 and w = "()"
          and s = "\<lparr>index = 0, writable = (), events = []\<rparr>"]
      second last none_left
    by simp
qed

subsection \<open>Error values\<close>

text \<open>
  Claim C6 says that the repository has no error taxonomy of its own and that none of
  its code classifies failures into categories it defines. The type \<open>ApiError\<close> is such
  a taxonomy and the error mapper of \<open>fetchUser\<close> is such a classification: a rejected
  \<open>fetch\<close> (a \<open>TypeError\<close>), a response with status 404 and a body that does not parse
  (a \<open>SyntaxError\<close>) end in three different categories.
\<close>

theorem api_error_taxonomy_counterexample:
  "fetchUser (Fetch_rejects
      \<lparr>instanceof_TypeError = True, message = ''fetch failed'', truthy = True,
       typeof = ''object'', props = [], shown = ''TypeError: fetch failed''\<rparr>
      :: unit fetch_outcome) = Err (Network ''fetch failed'')
   \<and> fetchUser (Response_not_ok 404 :: unit fetch_outcome) = Err (Http 404)
   \<and> fetchUser (Json_rejects
      \<lparr>instanceof_TypeError = False, message = ''Unexpected token'', truthy = True,
       typeof = ''object'', props = [], shown = ''SyntaxError: Unexpected token''\<rparr>
      :: unit fetch_outcome) = Err (Parse ''SyntaxError: Unexpected token'')
   \<and> error_type (Network ''fetch failed'') \<noteq> error_type (Http 404)
   \<and> error_type (Http 404) \<noteq> error_type (Parse ''SyntaxError: Unexpected token'')
   \<and> error_type (Parse ''SyntaxError: Unexpected token'') \<noteq> error_type (Network ''fetch failed'')"
  by (simp add: mapError_def status_object_def)

text \<open>
  Claim C6, amended. The repository does define an error taxonomy of its own, the type
  \<open>ApiError\<close> with the categories \<open>network\<close>, \<open>http\<close> and \<open>parse\<close>, and the error mapper of
  \<open>fetchUser\<close> classifies every failure into exactly one of them: an instance of
  \<open>TypeError\<close> is \<open>network\<close>; otherwise a truthy value of type \<open>object\<close> with a \<open>status\<close>
  property is \<open>http\<close> (so is a response that is not ok, with its status); anything else
  is \<open>parse\<close>. The failures of \<open>fetchUser\<close>, \<open>validateEmail\<close> and \<open>validatePassword\<close> are
  surfaced as error values of the third-party Result type, the last two with one fixed
  message each, \<open>validatePassword\<close> exactly when the password has fewer than 8
  characters.
\<close>

theorem errors_are_classified_result_values:
  "error_type (mapError e) \<in> {''network'', ''http'', ''parse''}
   \<and> (error_type (mapError e) = ''network'') = instanceof_TypeError e
   \<and> (error_type (mapError e) = ''http'') =
       (\<not> instanceof_TypeError e \<and> truthy e \<and> typeof e = ''object''
        \<and> ''status'' \<in> fst ` set (props e))
   \<and> (error_type (mapError e) = ''parse'') =
       (\<not> instanceof_TypeError e
        \<and> \<not> (truthy e \<and> typeof e = ''object'' \<and> ''status'' \<in> fst ` set (props e)))
   \<and> (mapError e = Network m) = (instanceof_TypeError e \<and> m = message e)
   \<and> (mapError e = Http code) =
       (\<not> instanceof_TypeError e \<and> truthy e \<and> typeof e = ''object''
        \<and> map_of (props e) ''status'' = Some code)
   \<and> (mapError e = Parse m) =
       (\<not> instanceof_TypeError e
        \<and> \<not> (truthy e \<and> typeof e = ''object'' \<and> ''status'' \<in> fst ` set (props e))
        \<and> m = shown e)
   \<and> fetchUser (Fetch_rejects e) = Err (mapError e)
   \<and> fetchUser (Json_rejects e) = Err (mapError e)
   \<and> fetchUser (Response_not_ok status) = Err (Http status)
   \<and> fetchUser (Json_resolves u) = Ok u
   \<and> (\<not> isOk (validateEmail emailRegex_test email)) =
       (validateEmail emailRegex_test email = Err ''Invalid email format'')
   \<and> (\<not> isOk (validatePassword password)) =
       (validatePassword password = Err ''Password must be at least 8 characters'')
   \<and> isOk (validatePassword password) = (8 \<le> length password)"
proof -
  have s: "(''status'' \<in> fst ` set (props e)) = (map_of (props e) ''status'' \<noteq> None)"
    by (simp add: map_of_eq_None_iff)
  show ?thesis
    unfolding s
    by (auto simp: mapError_def status_object_def validateEmail_def validatePassword_def
        split: option.splits)
qed

subsection \<open>CSV parser\<close>

lemma split_on_not_Nil: "split_on sep s \<noteq> []"
  by (induction s) (auto split: list.splits)

lemma process_lines_with_header:
  "header p = Some hdr \<Longrightarrow>
   foldl process_line (p, pushed) lines =
     (p, pushed @ map (row_object hdr) (filter (\<lambda>line. trim line \<noteq> []) lines))"
  by (induction lines arbitrary: pushed) simp_all

lemma process_lines_without_header:
  "header p = None \<Longrightarrow>
   foldl process_line (p, pushed) (first # later) =
     (p\<lparr>header := Some (split_on CHR '','' first)\<rparr>,
      pushed @ map (row_object (split_on CHR '','' first))
                 (filter (\<lambda>line. trim line \<noteq> []) later))"
  by (simp add: process_lines_with_header)

lemma write_chunks_with_header:
  "header p = Some hdr \<Longrightarrow>
   write_chunks p chunks =
     (p, map (row_object hdr)
           (filter (\<lambda>line. trim line \<noteq> []) (concat (map (split_on CHR 0x0A) chunks))))"
  by (induction chunks) (simp_all add: transform_def process_lines_with_header)

lemma write_chunks_new: "snd (write_chunks new_CSVParser chunks) = csv_rows_spec chunks"
proof (cases chunks)
  case Nil
  then show ?thesis by (simp add: csv_rows_spec_def)
next
  case (Cons chunk rest)
  obtain first later where sp: "split_on CHR 0x0A chunk = first # later"
    using split_on_not_Nil [of "CHR 0x0A" chunk] by (cases "split_on CHR 0x0A chunk") auto
  let ?p = "new_CSVParser\<lparr>header := Some (split_on CHR '','' first)\<rparr>"
  have t: "transform new_CSVParser chunk =
      (?p, map (row_object (split_on CHR '','' first)) (filter (\<lambda>line. trim line \<noteq> []) later))"
    using process_lines_without_header [of new_CSVParser "[]" first later]
    by (simp add: transform_def sp new_CSVParser_def)
  have w: "write_chunks ?p rest =
      (?p, map (row_object (split_on CHR '','' first))
            (filter (\<lambda>line. trim line \<noteq> []) (concat (map (split_on CHR 0x0A) rest))))"
    by (rule write_chunks_with_header) simp
  show ?thesis by (simp add: Cons t w csv_rows_spec_def sp)
qed

lemma row_fold_other:
  "key \<notin> trim ` set hdr \<Longrightarrow>
   foldl (\<lambda>acc (i, key). assign acc (trim key) (map_option trim (nth_opt values i)))
     acc (enumerate n hdr) key = acc key"
  by (induction hdr arbitrary: acc n) (auto simp: assign_def)

lemma row_fold_field:
  "distinct (map trim hdr) \<Longrightarrow> ''__proto__'' \<notin> trim ` set hdr \<Longrightarrow> i < length hdr \<Longrightarrow>
   foldl (\<lambda>acc (i, key). assign acc (trim key) (map_option trim (nth_opt values i)))
     acc (enumerate n hdr) (trim (hdr ! i)) = map_option trim (nth_opt values (n + i))"
proof (induction hdr arbitrary: acc n i)
  case Nil
  then show ?case by simp
next
  case (Cons h t)
  show ?case
  proof (cases i)
    case 0
    let ?acc = "assign acc (trim h) (map_option trim (nth_opt values n))"
    have "trim h \<notin> trim ` set t" using Cons.prems(1) by auto
    then have "foldl (\<lambda>acc (i, key). assign acc (trim key) (map_option trim (nth_opt values i)))
        ?acc (enumerate (Suc n) t) (trim h) = ?acc (trim h)"
      by (rule row_fold_other)
    moreover have "?acc (trim h) = map_option trim (nth_opt values n)"
      using Cons.prems(2) by (auto simp: assign_def)
    ultimately show ?thesis using 0 by simp
  next
    case (Suc j)
    then show ?thesis using Cons.prems Cons.IH [of j _ "Suc n"] by simp
  qed
qed

text \<open>
  Claim C10 says that every later non-empty line gives exactly one object, which maps
  each trimmed header field to the trimmed value at the same position. A line of two
  spaces is not empty and gives no object, since the parser tests \<open>line.trim()\<close>; and
  with the header \<open>a,a\<close> the line \<open>1,2\<close> gives an object in which \<open>a\<close> is \<open>2\<close>, the value at
  the second position, also for the first field.
\<close>

theorem csv_blank_line_counterexample:
  "''  '' \<in> set (tl (concat (map (split_on CHR 0x0A) [''a,b\<newline>'', ''  \<newline>''])))
   \<and> ''  '' \<noteq> []
   \<and> snd (write_chunks new_CSVParser [''a,b\<newline>'', ''  \<newline>'']) = []
   \<and> map (\<lambda>obj. obj ''a'') (snd (write_chunks new_CSVParser [''a,a\<newline>1,2''])) = [Some ''2'']"
  by code_simp

text \<open>
  Claim C10, amended. For every sequence of chunks written to a new \<open>CSVParser\<close>, the
  parser takes the first line of the first chunk as the header and pushes exactly one
  object for every later line that is not blank (that has a character other than white
  space), in order; the lines are those of each chunk taken on its own, so a line split
  across two chunks counts as two lines. When the trimmed header fields are distinct and
  none is \<open>__proto__\<close>, the object maps each trimmed header field to the trimmed value at
  the same comma-separated position, and to nothing (\<open>undefined\<close>) when the line has no
  value there; it has no other keys.
\<close>

theorem csv_parser_rows:
  "snd (write_chunks new_CSVParser chunks) = csv_rows_spec chunks
   \<and> (distinct (map trim hdr) \<and> ''__proto__'' \<notin> set (map trim hdr) \<and> i < length hdr \<longrightarrow>
        row_object hdr line (trim (hdr ! i)) =
          map_option trim (nth_opt (split_on CHR '','' line) i))
   \<and> (key \<notin> set (map trim hdr) \<longrightarrow> row_object hdr line key = None)"
  using row_fold_field [of hdr i "split_on CHR '','' line" Map.empty 0]
    row_fold_other [of key hdr "split_on CHR '','' line" Map.empty 0]
  by (simp add: write_chunks_new row_object_def Let_def)

theorem csv_parser_rows_witness:
  "distinct (map trim [''a'', '' b'']) \<and> ''__proto__'' \<notin> set (map trim [''a'', '' b''])
   \<and> (1::nat) < length [''a'', '' b'']
   \<and> row_object [''a'', '' b''] ''1, 2 '' ''b'' = Some ''2''
   \<and> ''c'' \<notin> set (map trim [''a'', '' b''])
   \<and> row_object [''a'', '' b''] ''1, 2 '' ''c'' = None
   \<and> map (\<lambda>obj. map obj [''a'', ''b''])
         (snd (write_chunks new_CSVParser [''a,b\<newline>1,'', ''2\<newline>'']))
       = [[Some ''1'', Some []], [Some ''2'', None]]"
proof -
  have d: "distinct (map trim [''a'', '' b''])" "''__proto__'' \<notin> set (map trim [''a'', '' b''])"
    "''c'' \<notin> set (map trim [''a'', '' b''])" "trim ([''a'', '' b''] ! 1) = ''b''"
    "map_option trim (nth_opt (split_on CHR '','' ''1, 2 '') 1) = Some ''2''"
    by code_simp+
  have r: "map (\<lambda>obj. map obj [''a'', ''b'']) (csv_rows_spec [''a,b\<newline>1,'', ''2\<newline>''])
       = [[Some ''1'', Some []], [Some ''2'', None]]"
    by code_simp
  show ?thesis
    using csv_parser_rows [of "[''a,b\<newline>1,'', ''2\<newline>'']" "[''a'', '' b'']" 1 "''1, 2 ''" "''c''"] d r
    by simp
qed

end
